theory Spec2Isabelle
  imports Complex_Main "HOL-Library.Multiset"
begin

section \<open>Strings\<close>

text \<open>
  Python strings are modelled as lists of characters and read as ASCII text: case
  conversion acts on the letters A-Z and a-z and leaves every other character alone,
  and the whitespace characters are the ASCII ones that \<^verbatim>\<open>str.split()\<close>,
  \<^verbatim>\<open>str.strip()\<close> and the regular expression class \<^verbatim>\<open>\s\<close> recognise
  (codes 9-13 and 28-32). Python's lower-casing can lengthen a string outside ASCII, so
  no statement below relies on the length of a lower-cased string: where the code
  measures a lower-cased string, so does the statement. The floats of the two difficulty
  heuristics are modelled as exact rationals.
\<close>

definition is_space :: "char \<Rightarrow> bool" where
  "is_space c = (let n = (of_char c :: nat) in (9 \<le> n \<and> n \<le> 13) \<or> (28 \<le> n \<and> n \<le> 32))"

definition is_upper :: "char \<Rightarrow> bool" where
  "is_upper c = (let n = (of_char c :: nat) in 65 \<le> n \<and> n \<le> 90)"

definition is_lower :: "char \<Rightarrow> bool" where
  "is_lower c = (let n = (of_char c :: nat) in 97 \<le> n \<and> n \<le> 122)"

definition is_digit :: "char \<Rightarrow> bool" where
  "is_digit c = (let n = (of_char c :: nat) in 48 \<le> n \<and> n \<le> 57)"

definition lower_char :: "char \<Rightarrow> char" where
  "lower_char c = (if is_upper c then char_of ((of_char c :: nat) + 32) else c)"

definition upper_char :: "char \<Rightarrow> char" where
  "upper_char c = (if is_lower c then char_of ((of_char c :: nat) - 32) else c)"

text \<open>\<^verbatim>\<open>s.lower()\<close>\<close>

definition lower :: "string \<Rightarrow> string" where
  "lower s = map lower_char s"

text \<open>\<^verbatim>\<open>s.strip()\<close>: leading and trailing whitespace removed.\<close>

definition strip :: "string \<Rightarrow> string" where
  "strip s = rev (dropWhile is_space (rev (dropWhile is_space s)))"

text \<open>
  \<^verbatim>\<open>s.split()\<close> with no separator: the maximal runs of non-whitespace characters, in
  order. \<open>split_go cur s\<close> scans \<open>s\<close> with the token \<open>cur\<close> under construction.
\<close>

fun split_go :: "string \<Rightarrow> string \<Rightarrow> string list" where
  "split_go cur [] = (if cur = [] then [] else [cur])"
| "split_go cur (c # cs) =
     (if is_space c then (if cur = [] then split_go [] cs else cur # split_go [] cs)
      else split_go (cur @ [c]) cs)"

definition split :: "string \<Rightarrow> string list" where
  "split s = split_go [] s"

text \<open>\<^verbatim>\<open>t in s\<close> on strings: \<open>t\<close> occurs in \<open>s\<close> as a contiguous substring.\<close>

fun starts_with :: "string \<Rightarrow> string \<Rightarrow> bool" where
  "starts_with s [] = True"
| "starts_with [] (a # t) = False"
| "starts_with (b # s) (a # t) = (a = b \<and> starts_with s t)"

fun contains :: "string \<Rightarrow> string \<Rightarrow> bool" where
  "contains [] t = (t = [])"
| "contains (c # s) t = (starts_with (c # s) t \<or> contains s t)"

section \<open>Errors\<close>

datatype error = ZeroDivisionError

text \<open>Python's true division \<^verbatim>\<open>a / b\<close> of a number by a length.\<close>

definition true_div :: "rat \<Rightarrow> nat \<Rightarrow> error + rat" where
  "true_div a b = (if b = 0 then Inl ZeroDivisionError else Inr (a / of_nat b))"

section \<open>The lexical difficulty heuristic (RealTimeKeywordAPI)\<close>

definition high_competition_terms :: "string list" where
  "high_competition_terms =
     [''best'', ''top'', ''free'', ''review'', ''buy'', ''cheap'', ''price'']"

text \<open>\<^verbatim>\<open>sum(5 for term in high_competition_terms if term in keyword.lower())\<close>\<close>

fun competition_boost :: "string list \<Rightarrow> string \<Rightarrow> nat" where
  "competition_boost [] s = 0"
| "competition_boost (t # ts) s = (if contains s t then 5 else 0) + competition_boost ts s"

text \<open>
  \<^verbatim>\<open>sum(len(word) for word in words) / len(words) if words else 0\<close>: the division
  is only evaluated when the list is non-empty.
\<close>

definition avg_length :: "string list \<Rightarrow> error + rat" where
  "avg_length words =
     (if words \<noteq> [] then true_div (of_nat (sum_list (map length words))) (length words)
      else Inr 0)"

text \<open>The body of the \<^verbatim>\<open>try\<close> block of \<^verbatim>\<open>estimate_keyword_difficulty\<close>.\<close>

definition estimate_body :: "string \<Rightarrow> error + rat" where
  "estimate_body keyword =
     (let words = split (lower keyword);
          word_count = length words
      in case avg_length words of
           Inl e \<Rightarrow> Inl e
         | Inr avg \<Rightarrow>
             (let base_difficulty = max 10 (80 - (of_nat word_count * 15) - (avg * 2));
                  boost = competition_boost high_competition_terms (lower keyword);
                  difficulty = min 95 (base_difficulty + of_nat boost)
              in Inr difficulty))"

text \<open>The bare \<^verbatim>\<open>except\<close> turns every error of the body into the default 50.\<close>

definition estimate_keyword_difficulty :: "string \<Rightarrow> rat" where
  "estimate_keyword_difficulty keyword =
     (case estimate_body keyword of Inl e \<Rightarrow> 50 | Inr difficulty \<Rightarrow> difficulty)"

text \<open>
  The lexical heuristic as the specification words it, for comparison with the code:
  five points for each occurrence of a vocabulary term in the keyword.
  \<open>count_occurrences s t\<close> counts the positions of \<open>s\<close> at which \<open>t\<close> starts.
\<close>

fun count_occurrences :: "string \<Rightarrow> string \<Rightarrow> nat" where
  "count_occurrences [] t = (if t = [] then 1 else 0)"
| "count_occurrences (c # s) t =
     (if starts_with (c # s) t then 1 else 0) + count_occurrences s t"

definition mean_token_length :: "string list \<Rightarrow> rat" where
  "mean_token_length ws =
     (if ws = [] then 0 else of_nat (sum_list (map length ws)) / of_nat (length ws))"

definition lexical_heuristic_spec :: "string \<Rightarrow> rat" where
  "lexical_heuristic_spec keyword =
     (let tokens = split (lower keyword);
          base = max 10 (80 - 15 * of_nat (length tokens) - 2 * mean_token_length tokens);
          occurrences = sum_list (map (count_occurrences (lower keyword)) high_competition_terms)
      in min 95 (base + 5 * of_nat occurrences))"

section \<open>The frequency-informed difficulty heuristic (SEOAnalyzer)\<close>

text \<open>The dictionary returned by \<^verbatim>\<open>load_word_frequencies\<close>; its keys are distinct.\<close>

definition word_frequencies :: "(string \<times> nat) list" where
  "word_frequencies =
     [(''how'', 850000), (''what'', 750000), (''best'', 680000), (''top'', 620000),
      (''guide'', 450000), (''tips'', 380000), (''review'', 320000), (''free'', 280000),
      (''tutorial'', 240000), (''business'', 220000), (''marketing'', 180000), (''seo'', 160000),
      (''growth'', 140000), (''startup'', 120000), (''tools'', 110000), (''strategy'', 95000),
      (''success'', 85000), (''online'', 75000), (''digital'', 65000), (''beginner'', 55000),
      (''advanced'', 45000), (''complete'', 40000), (''ultimate'', 35000), (''simple'', 30000),
      (''easy'', 28000), (''quick'', 25000), (''step'', 22000), (''effective'', 20000),
      (''proven'', 18000), (''examples'', 16000), (''case'', 15000), (''study'', 14000),
      (''method'', 13000), (''technique'', 12000), (''approach'', 11000), (''framework'', 10000),
      (''process'', 9500), (''system'', 9000), (''hack'', 8500), (''secret'', 8000),
      (''trick'', 7500), (''mistake'', 7000), (''common'', 6500), (''popular'', 6000),
      (''trending'', 5500), (''latest'', 5000), (''new'', 4800), (''updated'', 4600),
      (''modern'', 4400), (''profitable'', 4200), (''money'', 4000), (''entrepreneur'', 3800),
      (''founder'', 3600), (''indie'', 3400), (''solo'', 3200), (''small'', 3000),
      (''website'', 2800), (''blog'', 2600), (''content'', 2400), (''optimization'', 2200),
      (''rank'', 2000), (''ranking'', 1800), (''google'', 1600), (''search'', 1400),
      (''traffic'', 1200), (''conversion'', 1000), (''funnel'', 900), (''leads'', 800),
      (''sales'', 700), (''revenue'', 600), (''profit'', 500)]"

text \<open>
  \<^verbatim>\<open>re.sub(r'[^a-zA-Z0-9\s]', '', text.lower())\<close>: lower-case, then drop every
  character that is neither a letter, a digit nor whitespace.
\<close>

definition clean_text :: "string \<Rightarrow> string" where
  "clean_text text =
     filter (\<lambda>c. is_lower c \<or> is_upper c \<or> is_digit c \<or> is_space c) (lower text)"

text \<open>
  The loop \<^verbatim>\<open>for word in words: if word in self.word_frequencies: total_frequency += ...\<close>
  with the running total as accumulator.
\<close>

fun total_frequency_loop :: "(string \<times> nat) list \<Rightarrow> string list \<Rightarrow> nat \<Rightarrow> nat" where
  "total_frequency_loop freqs [] total_frequency = total_frequency"
| "total_frequency_loop freqs (word # ws) total_frequency =
     total_frequency_loop freqs ws
       (case map_of freqs word of
          Some f \<Rightarrow> total_frequency + f
        | None \<Rightarrow> total_frequency)"

text \<open>\<^verbatim>\<open>SEOAnalyzer.estimate_keyword_difficulty\<close>; it has no exception handler.\<close>

definition seo_estimate_keyword_difficulty :: "string \<Rightarrow> error + rat" where
  "seo_estimate_keyword_difficulty keyword =
     (let words = split (clean_text keyword);
          word_count = length words
      in case avg_length words of
           Inl e \<Rightarrow> Inl e
         | Inr avg_word_length \<Rightarrow>
             (let total_frequency = total_frequency_loop word_frequencies words 0;
                  frequency_score = min (of_nat total_frequency / 10000) 50;
                  length_score = max 0 (30 - (of_nat word_count * 5));
                  word_length_score = max 0 (20 - (avg_word_length * 2));
                  difficulty = frequency_score + length_score + word_length_score
              in Inr (min (max difficulty 0) 100)))"

section \<open>The aggregator (RealTimeSEOAnalyzer.generate_real_keywords)\<close>

text \<open>
  A Python set of strings is modelled as the list of its members, without repetition, in
  the order of insertion. Python does not fix the order in which a set is iterated or
  turned into a list, so that order is a parameter \<open>enum\<close> of the model: a function that
  rearranges the members. The results of the four network sources are parameters too
  (each source returns the empty list when it fails).
\<close>

definition iteration_order :: "(string list \<Rightarrow> string list) \<Rightarrow> bool" where
  "iteration_order enum = (\<forall>xs. mset (enum xs) = mset xs)"

definition set_add :: "string \<Rightarrow> string list \<Rightarrow> string list" where
  "set_add x s = (if x \<in> set s then s else s @ [x])"

text \<open>\<^verbatim>\<open>s.update(xs)\<close> and \<^verbatim>\<open>set(xs)\<close>\<close>

definition set_update :: "string list \<Rightarrow> string list \<Rightarrow> string list" where
  "set_update xs s = fold set_add xs s"

definition set_of_list :: "string list \<Rightarrow> string list" where
  "set_of_list xs = set_update xs []"

text \<open>The loop over the words of the semantic-relation source.\<close>

fun add_datamuse :: "string \<Rightarrow> string list \<Rightarrow> string list \<Rightarrow> string list" where
  "add_datamuse seed_keyword [] all_keywords = all_keywords"
| "add_datamuse seed_keyword (word # ws) all_keywords =
     add_datamuse seed_keyword ws
       (set_add (seed_keyword @ '' '' @ word) (set_add (word @ '' '' @ seed_keyword) all_keywords))"

text \<open>The loop over the encyclopedic terms: only terms of at most three tokens are combined.\<close>

fun add_wiki :: "string \<Rightarrow> string list \<Rightarrow> string list \<Rightarrow> string list" where
  "add_wiki seed_keyword [] all_keywords = all_keywords"
| "add_wiki seed_keyword (term # ts) all_keywords =
     add_wiki seed_keyword ts
       (if length (split term) \<le> 3
        then set_add (seed_keyword @ '' '' @ lower term)
               (set_add (lower term @ '' '' @ seed_keyword) all_keywords)
        else all_keywords)"

definition all_keywords_of ::
  "string \<Rightarrow> string list \<Rightarrow> string list \<Rightarrow> string list \<Rightarrow> string list \<Rightarrow> string list" where
  "all_keywords_of seed_keyword google_suggestions google_related datamuse_words wiki_terms =
     add_wiki seed_keyword wiki_terms
       (add_datamuse seed_keyword datamuse_words
          (set_update google_related
             (set_update google_suggestions
                (set_add (lower seed_keyword) []))))"

text \<open>The condition of the filter loop: \<^verbatim>\<open>3 <= len(keyword) <= 100 and len(keyword.split()) <= 6\<close>\<close>

definition keep_keyword :: "string \<Rightarrow> bool" where
  "keep_keyword keyword =
     (3 \<le> length keyword \<and> length keyword \<le> 100 \<and> length (split keyword) \<le> 6)"

text \<open>The filter loop, with \<^verbatim>\<open>filtered_keywords\<close> as accumulator.\<close>

fun filter_keywords :: "string list \<Rightarrow> string list \<Rightarrow> string list" where
  "filter_keywords [] filtered_keywords = filtered_keywords"
| "filter_keywords (keyword # ks) filtered_keywords =
     filter_keywords ks
       (if keep_keyword keyword then filtered_keywords @ [lower (strip keyword)]
        else filtered_keywords)"

definition generate_real_keywords ::
  "(string list \<Rightarrow> string list) \<Rightarrow> string \<Rightarrow> string list \<Rightarrow> string list \<Rightarrow> string list
     \<Rightarrow> string list \<Rightarrow> string list" where
  "generate_real_keywords enum seed_keyword google_suggestions google_related datamuse_words
       wiki_terms =
     (let all_keywords =
            all_keywords_of seed_keyword google_suggestions google_related datamuse_words
              wiki_terms;
          filtered_keywords = filter_keywords (enum all_keywords) []
      in take 50 (enum (set_of_list filtered_keywords)))"

section \<open>The categorizer (RealTimeSEOAnalyzer.categorize_keywords)\<close>

fun categorize_loop ::
  "string list \<Rightarrow> string list \<Rightarrow> string list \<Rightarrow> string list \<times> string list" where
  "categorize_loop [] short_tail long_tail = (short_tail, long_tail)"
| "categorize_loop (keyword # ks) short_tail long_tail =
     (let word_count = length (split keyword)
      in if word_count \<le> 2 then categorize_loop ks (short_tail @ [keyword]) long_tail
         else categorize_loop ks short_tail (long_tail @ [keyword]))"

definition categorize_keywords :: "string list \<Rightarrow> string list \<times> string list" where
  "categorize_keywords keywords = categorize_loop keywords [] []"

section \<open>The content planner (RealTimeSEOAnalyzer.suggest_content_structure)\<close>

text \<open>
  \<^verbatim>\<open>s.title()\<close>: a letter that follows a letter is lower-cased, any other letter is
  upper-cased. \<open>title_go prev s\<close> scans \<open>s\<close>; \<open>prev\<close> tells whether the previous
  character was a letter.
\<close>

fun title_go :: "bool \<Rightarrow> string \<Rightarrow> string" where
  "title_go prev [] = []"
| "title_go prev (c # cs) =
     (if is_lower c \<or> is_upper c
      then (if prev then lower_char c else upper_char c) # title_go True cs
      else c # title_go False cs)"

definition title :: "string \<Rightarrow> string" where
  "title s = title_go False s"

record content_structure =
  titles :: "string list"
  headings :: "string list"
  meta_description :: string
  target_length :: int
  keyword_density :: rat

definition suggest_content_structure :: "string \<Rightarrow> string list \<Rightarrow> content_structure" where
  "suggest_content_structure keyword related_keywords =
     \<lparr> titles =
         [''Complete Guide to '' @ title keyword,
          ''How to Master '' @ title keyword @ '': Expert Tips'',
          title keyword @ '': Everything You Need to Know'',
          ''Ultimate '' @ title keyword @ '' Tutorial for Beginners'',
          ''Advanced '' @ title keyword @ '': Best Practices''],
       headings =
         [''What is '' @ title keyword @ ''?'',
          ''Why '' @ title keyword @ '' Matters in 2024'',
          ''Getting Started with '' @ title keyword,
          ''Advanced '' @ title keyword @ '' Strategies'',
          ''Common '' @ title keyword @ '' Mistakes to Avoid'',
          ''Best '' @ title keyword @ '' Tools and Resources'',
          ''Real-World '' @ title keyword @ '' Examples'',
          title keyword @ '' Future Trends''],
       meta_description =
         ''Master '' @ keyword @ '' with our comprehensive guide. Learn proven strategies, avoid common mistakes, and get expert tips for success.'',
       target_length = 2000,
       keyword_density = 3 / 2 \<rparr>"

section \<open>The target number of keyword mentions\<close>









section \<open>Properties of the string operations\<close>

lemma is_space_lower_char: "is_space (lower_char c) = is_space c"
proof (cases "is_upper c")
  case True
  then have b: "65 \<le> (of_char c :: nat)" "(of_char c :: nat) \<le> 90"
    by (auto simp: is_upper_def Let_def)
  then have "(of_char (char_of ((of_char c :: nat) + 32)) :: nat) = of_char c + 32"
    by simp
  then show ?thesis
    using True b by (simp add: lower_char_def is_space_def Let_def)
next
  case False
  then show ?thesis by (simp add: lower_char_def)
qed

lemma lower_char_idem: "lower_char (lower_char c) = lower_char c"
proof (cases "is_upper c")
  case True
  then have b: "65 \<le> (of_char c :: nat)" "(of_char c :: nat) \<le> 90"
    by (auto simp: is_upper_def Let_def)
  then have "(of_char (char_of ((of_char c :: nat) + 32)) :: nat) = of_char c + 32"
    by simp
  then have "\<not> is_upper (char_of ((of_char c :: nat) + 32))"
    using b by (simp add: is_upper_def Let_def)
  then show ?thesis
    using True by (simp add: lower_char_def)
next
  case False
  then show ?thesis by (simp add: lower_char_def)
qed

lemma lower_lower: "lower (lower s) = lower s"
  by (simp add: lower_def lower_char_idem)

lemma dropWhile_space_lower:
  "dropWhile is_space (lower s) = lower (dropWhile is_space s)"
  by (induction s) (simp_all add: lower_def is_space_lower_char)

lemma rev_lower: "rev (lower s) = lower (rev s)"
  by (simp add: lower_def rev_map)

lemma strip_lower: "strip (lower s) = lower (strip s)"
  by (simp add: strip_def dropWhile_space_lower rev_lower)

lemma length_strip_le: "length (strip s) \<le> length s"
proof -
  have "length (strip s) \<le> length (dropWhile is_space s)"
    unfolding strip_def using length_dropWhile_le [of is_space "rev (dropWhile is_space s)"]
    by simp
  also have "\<dots> \<le> length s" by (rule length_dropWhile_le)
  finally show ?thesis .
qed

lemma dropWhile_fixed: "xs = [] \<or> \<not> P (hd xs) \<Longrightarrow> dropWhile P xs = xs"
  by (cases xs) auto

lemma rstrip_decomp: "rev (dropWhile P (rev a)) @ rev (takeWhile P (rev a)) = a"
proof -
  have "rev (takeWhile P (rev a) @ dropWhile P (rev a)) = rev (rev a)"
    by (simp only: takeWhile_dropWhile_id)
  then show ?thesis by (simp only: rev_append rev_rev_ident)
qed

lemma strip_idem: "strip (strip s) = strip s"
proof -
  define a where "a = dropWhile is_space s"
  define b where "b = rev (dropWhile is_space (rev a))"
  have sb: "strip s = b" by (simp add: strip_def a_def b_def)
  have ab: "a = b @ rev (takeWhile is_space (rev a))"
    unfolding b_def by (rule rstrip_decomp [symmetric])
  have "b = [] \<or> \<not> is_space (hd b)"
  proof (cases "b = []")
    case True
    then show ?thesis by simp
  next
    case False
    then have "hd b = hd a" using ab by (metis hd_append2)
    moreover have "a \<noteq> []" using False ab by auto
    then have "\<not> is_space (hd a)" unfolding a_def by (rule hd_dropWhile)
    ultimately show ?thesis by simp
  qed
  then have 1: "dropWhile is_space b = b" by (rule dropWhile_fixed)
  have 2: "dropWhile is_space (rev b) = rev b" by (simp add: b_def)
  show ?thesis
    unfolding sb by (simp add: strip_def 1 2)
qed

lemma split_go_map:
  assumes "\<And>c. is_space (f c) = is_space c"
  shows "split_go (map f cur) (map f s) = map (map f) (split_go cur s)"
proof (induction s arbitrary: cur)
  case Nil
  then show ?case by simp
next
  case (Cons c s)
  have "split_go (map f (cur @ [c])) (map f s) = map (map f) (split_go (cur @ [c]) s)"
    by (rule Cons.IH)
  moreover have "split_go (map f []) (map f s) = map (map f) (split_go [] s)"
    by (rule Cons.IH)
  ultimately show ?case using assms by simp
qed

lemma split_lower: "split (lower s) = map lower (split s)"
proof -
  have "split_go (map lower_char []) (map lower_char s) = map (map lower_char) (split_go [] s)"
    by (rule split_go_map) (rule is_space_lower_char)
  then show ?thesis by (simp add: split_def lower_def [abs_def])
qed

lemma length_split_lower: "length (split (lower s)) = length (split s)"
  by (simp add: split_lower)

lemma split_go_dropWhile: "split_go [] (dropWhile is_space s) = split_go [] s"
  by (induction s) simp_all

lemma split_go_snoc_space: "is_space c \<Longrightarrow> split_go cur (s @ [c]) = split_go cur s"
  by (induction s arbitrary: cur) simp_all

lemma split_go_append_spaces:
  "\<forall>c \<in> set w. is_space c \<Longrightarrow> split_go cur (s @ w) = split_go cur s"
proof (induction w rule: rev_induct)
  case Nil
  then show ?case by simp
next
  case (snoc c w)
  have "split_go cur (s @ w @ [c]) = split_go cur ((s @ w) @ [c])" by simp
  also have "\<dots> = split_go cur (s @ w)"
  proof (rule split_go_snoc_space)
    show "is_space c" using snoc.prems by simp
  qed
  finally show ?case using snoc by simp
qed

lemma split_rstrip: "split_go cur (rev (dropWhile is_space (rev a))) = split_go cur a"
proof -
  have a: "a = rev (dropWhile is_space (rev a)) @ rev (takeWhile is_space (rev a))"
    by (rule rstrip_decomp [symmetric])
  have "\<forall>c \<in> set (rev (takeWhile is_space (rev a))). is_space c"
    by (auto dest: set_takeWhileD)
  then have "split_go cur (rev (dropWhile is_space (rev a)) @ rev (takeWhile is_space (rev a)))
      = split_go cur (rev (dropWhile is_space (rev a)))"
    by (rule split_go_append_spaces)
  then show ?thesis by (simp only: rstrip_decomp)
qed

lemma split_strip: "split (strip s) = split s"
  by (simp add: split_def strip_def split_rstrip split_go_dropWhile)

lemma split_go_empty: "split_go cur s = [] \<Longrightarrow> cur = [] \<and> (\<forall>c \<in> set s. is_space c)"
  by (induction s arbitrary: cur) (auto split: if_splits)

lemma split_empty: "split s = [] \<Longrightarrow> \<forall>c \<in> set s. is_space c"
  using split_go_empty [of "[]" s] by (simp add: split_def)

lemma avg_length_total: "\<exists>a. avg_length ws = Inr a \<and> 0 \<le> a"
  by (cases ws) (auto simp: avg_length_def true_div_def)

lemma estimate_body_total: "\<exists>d. estimate_body k = Inr d \<and> 10 \<le> d \<and> d \<le> 95"
proof -
  obtain a where a: "avg_length (split (lower k)) = Inr a"
    using avg_length_total by blast
  show ?thesis
    by (simp add: estimate_body_def Let_def a)
qed

lemma estimate_ge_10: "10 \<le> estimate_keyword_difficulty k"
  using estimate_body_total [of k] by (auto simp: estimate_keyword_difficulty_def)

lemma estimate_le_95: "estimate_keyword_difficulty k \<le> 95"
  using estimate_body_total [of k] by (auto simp: estimate_keyword_difficulty_def)

lemma starts_with_iff: "starts_with s t \<longleftrightarrow> (\<exists>q. s = t @ q)"
  by (induction s t rule: starts_with.induct) auto

lemma contains_iff: "contains s t \<longleftrightarrow> (\<exists>p q. s = p @ t @ q)"
proof (induction s)
  case Nil
  then show ?case by auto
next
  case (Cons c s)
  show ?case
  proof
    assume "contains (c # s) t"
    then consider "starts_with (c # s) t" | "contains s t" by auto
    then show "\<exists>p q. c # s = p @ t @ q"
    proof cases
      case 1
      then obtain q where "c # s = t @ q" using starts_with_iff by blast
      then have "c # s = [] @ t @ q" by simp
      then show ?thesis by blast
    next
      case 2
      then obtain p q where "s = p @ t @ q" using Cons.IH by blast
      then have "c # s = (c # p) @ t @ q" by simp
      then show ?thesis by blast
    qed
  next
    assume "\<exists>p q. c # s = p @ t @ q"
    then obtain p q where pq: "c # s = p @ t @ q" by blast
    show "contains (c # s) t"
    proof (cases p)
      case Nil
      then have "starts_with (c # s) t" using pq starts_with_iff by auto
      then show ?thesis by simp
    next
      case (Cons a p')
      then have "s = p' @ t @ q" using pq by simp
      then have "contains s t" using Cons.IH by blast
      then show ?thesis by simp
    qed
  qed
qed

lemma competition_boost_filter:
  "competition_boost ts s = 5 * length (filter (contains s) ts)"
  by (induction ts) auto

lemma competition_boost_card:
  assumes "distinct ts"
  shows "competition_boost ts s = 5 * card {t \<in> set ts. \<exists>p q. s = p @ t @ q}"
proof -
  have "distinct (filter (contains s) ts)"
    using assms by simp
  then have "length (filter (contains s) ts) = card (set (filter (contains s) ts))"
    by (rule distinct_card [symmetric])
  also have "set (filter (contains s) ts) = {t \<in> set ts. \<exists>p q. s = p @ t @ q}"
    by (auto simp: contains_iff)
  finally show ?thesis by (simp add: competition_boost_filter)
qed

lemma distinct_high_competition_terms: "distinct high_competition_terms"
  by (simp add: high_competition_terms_def)

lemma estimate_keyword_difficulty_unfold:
  "estimate_keyword_difficulty k =
     min 95 (max 10 (80 - of_nat (length (split (lower k))) * 15
                        - (if split (lower k) = [] then 0
                           else of_nat (sum_list (map length (split (lower k))))
                                / of_nat (length (split (lower k)))) * 2)
             + of_nat (competition_boost high_competition_terms (lower k)))"
  by (simp add: estimate_keyword_difficulty_def estimate_body_def avg_length_def
      true_div_def Let_def)

section \<open>Claims about the lexical heuristic\<close>

text \<open>
  C10. For every keyword string, the empty string included, the lexical difficulty
  heuristic returns a value between 10 and 95: the base is floored at 10 and the total
  capped at 95, so neither 0 nor 100 is ever returned. The empty string scores 80.
\<close>

theorem lexical_difficulty_range_10_95:
  "10 \<le> estimate_keyword_difficulty k \<and> estimate_keyword_difficulty k \<le> 95
   \<and> estimate_keyword_difficulty k \<noteq> 0 \<and> estimate_keyword_difficulty k \<noteq> 100
   \<and> estimate_keyword_difficulty [] = 80"
proof -
  have "10 \<le> estimate_keyword_difficulty k" "estimate_keyword_difficulty k \<le> 95"
    by (rule estimate_ge_10, rule estimate_le_95)
  moreover have "estimate_keyword_difficulty [] = 80"
    by code_simp
  ultimately show ?thesis by auto
qed

text \<open>
  C6. For every keyword the lexical difficulty score lies in [0,100], and the score of
  the one short token "a" is at least the score of the five long tokens
  "advanced industrial keyword research methodology" (63 against 10).
\<close>

theorem lexical_difficulty_in_0_100_and_monotone_example:
  "0 \<le> estimate_keyword_difficulty k \<and> estimate_keyword_difficulty k \<le> 100
   \<and> estimate_keyword_difficulty ''a''
       \<ge> estimate_keyword_difficulty ''advanced industrial keyword research methodology''
   \<and> estimate_keyword_difficulty ''a'' = 63
   \<and> estimate_keyword_difficulty ''advanced industrial keyword research methodology'' = 10"
proof -
  have a: "estimate_keyword_difficulty ''a'' = 63"
    by code_simp
  have b: "estimate_keyword_difficulty ''advanced industrial keyword research methodology'' = 10"
    by code_simp
  have "10 \<le> estimate_keyword_difficulty k" "estimate_keyword_difficulty k \<le> 95"
    by (rule estimate_ge_10, rule estimate_le_95)
  then show ?thesis using a b by auto
qed

lemma avg_length_mean: "avg_length ws = Inr (mean_token_length ws)"
  by (simp add: avg_length_def mean_token_length_def true_div_def)

lemma mean_token_length_nonneg: "0 \<le> mean_token_length ws"
  by (simp add: mean_token_length_def)

text \<open>
  C2 (as amended). For every keyword the lexical heuristic returns
  min(95, max(10, 80 - 15*tokenCount - 2*avgTokenLength) + 5*n), where the tokens are those of
  the lower-cased keyword, avgTokenLength is 0 when there is no token, and n is the number
  of vocabulary terms (best, top, free, review, buy, cheap, price) that occur as a
  substring of the lower-cased keyword: a term counts once, however often it occurs.
\<close>

theorem lexical_difficulty_formula:
  "estimate_keyword_difficulty k =
     min 95 (max 10 (80 - 15 * of_nat (length (split (lower k)))
                        - 2 * mean_token_length (split (lower k)))
             + 5 * of_nat (card {t \<in> set high_competition_terms. \<exists>p q. lower k = p @ t @ q}))"
proof -
  have "competition_boost high_competition_terms (lower k)
      = 5 * card {t \<in> set high_competition_terms. \<exists>p q. lower k = p @ t @ q}"
    using distinct_high_competition_terms by (rule competition_boost_card)
  then show ?thesis
    by (simp add: estimate_keyword_difficulty_def estimate_body_def avg_length_mean Let_def
        mult.commute)
qed

text \<open>
  C2 as stated counts five points for each occurrence of a term. On "best best" the term
  "best" occurs twice: the code adds 5 once and returns 47, the per-occurrence reading
  gives 52.
\<close>

theorem lexical_difficulty_per_occurrence_counterexample:
  "estimate_keyword_difficulty ''best best'' = 47
   \<and> lexical_heuristic_spec ''best best'' = 52
   \<and> estimate_keyword_difficulty ''best best'' \<noteq> lexical_heuristic_spec ''best best''"
proof -
  have a: "estimate_keyword_difficulty ''best best'' = 47" by code_simp
  have b: "lexical_heuristic_spec ''best best'' = 52" by code_simp
  show ?thesis by (simp add: a b)
qed

lemma contains_set: "contains s t \<Longrightarrow> set t \<subseteq> set s"
  by (auto simp: contains_iff)

lemma no_term_in_blank:
  assumes "\<forall>c \<in> set s. is_space c"
  shows "competition_boost high_competition_terms s = 0"
proof -
  have "\<not> contains s t" if "t \<in> set high_competition_terms" for t
  proof
    assume "contains s t"
    then have sub: "set t \<subseteq> set s" by (rule contains_set)
    have "\<exists>c \<in> set t. \<not> is_space c"
      using that by (auto simp: high_competition_terms_def is_space_def)
    then show False using sub assms by blast
  qed
  then have "filter (contains s) high_competition_terms = []"
    by (simp add: filter_empty_conv)
  then show ?thesis by (simp add: competition_boost_filter)
qed

lemma total_frequency_loop_sum:
  "total_frequency_loop freqs ws t =
     t + sum_list (map (\<lambda>w. case map_of freqs w of Some f \<Rightarrow> f | None \<Rightarrow> 0) ws)"
  by (induction ws arbitrary: t) (auto split: option.splits)

lemma seo_estimate_unfold:
  "seo_estimate_keyword_difficulty k =
     Inr (min (max (min (of_nat (total_frequency_loop word_frequencies (split (clean_text k)) 0) / 10000) 50
                    + max 0 (30 - of_nat (length (split (clean_text k))) * 5)
                    + max 0 (20 - mean_token_length (split (clean_text k)) * 2)) 0) 100)"
  by (simp add: seo_estimate_keyword_difficulty_def avg_length_mean Let_def)

text \<open>
  C3 (as amended). A keyword without tokens scores 80 under the lexical heuristic (base
  80, no vocabulary term, no error raised) and 50 under the frequency-informed heuristic
  (0 + 30 + 20), where the tokens of the latter are those of the cleaned text.
\<close>

theorem empty_tokens_scores:
  "(split (lower k) = [] \<longrightarrow> estimate_keyword_difficulty k = 80)
   \<and> (split (clean_text k') = [] \<longrightarrow> seo_estimate_keyword_difficulty k' = Inr 50)"
proof (intro conjI impI)
  assume e: "split (lower k) = []"
  then have "\<forall>c \<in> set (lower k). is_space c" by (rule split_empty)
  then have "competition_boost high_competition_terms (lower k) = 0"
    by (rule no_term_in_blank)
  then show "estimate_keyword_difficulty k = 80"
    using e by (simp add: estimate_keyword_difficulty_unfold)
next
  assume e: "split (clean_text k') = []"
  show "seo_estimate_keyword_difficulty k' = Inr 50"
    by (simp add: seo_estimate_unfold e mean_token_length_def)
qed

text \<open>
  Witness for C3 (as amended): two blanks for the lexical heuristic, "?!" (cleaned to the
  empty string) for the frequency-informed one.
\<close>

theorem empty_tokens_scores_witness:
  "split (lower ''  '') = [] \<and> estimate_keyword_difficulty ''  '' = 80
   \<and> split (clean_text ''?!'') = [] \<and> seo_estimate_keyword_difficulty ''?!'' = Inr 50"
proof -
  have h1: "split (lower ''  '') = []" by code_simp
  have h2: "split (clean_text ''?!'') = []" by code_simp
  from empty_tokens_scores [of "''  ''" "''?!''"] h1 h2 show ?thesis by simp
qed

text \<open>
  C3 as stated fails for the lexical heuristic: the empty keyword has no token and scores
  80, not 50. The guard on the division keeps the handler that returns 50 from running.
\<close>

theorem lexical_empty_keyword_counterexample:
  "split (lower '''') = [] \<and> estimate_keyword_difficulty '''' = 80
   \<and> estimate_keyword_difficulty '''' \<noteq> 50"
proof -
  have a: "estimate_keyword_difficulty '''' = 80" by code_simp
  have b: "split (lower '''') = []" by code_simp
  show ?thesis by (simp add: a b)
qed

text \<open>
  C7. For every keyword the frequency-informed heuristic returns
  min(totalFrequency/10000, 50) + max(0, 30 - 5*tokenCount) + max(0, 20 - 2*avgTokenLength),
  clamped to [0,100], where the tokens are those of the cleaned keyword and totalFrequency
  adds up the table entries of the tokens found in the table.
\<close>

theorem seo_difficulty_formula:
  "(let ws = split (clean_text k);
        total = sum_list (map (\<lambda>w. case map_of word_frequencies w of Some f \<Rightarrow> f | None \<Rightarrow> 0) ws);
        d = min (of_nat total / 10000) 50
            + max 0 (30 - 5 * of_nat (length ws))
            + max 0 (20 - 2 * mean_token_length ws)
    in seo_estimate_keyword_difficulty k = Inr (min (max d 0) 100)
       \<and> 0 \<le> min (max d 0) 100 \<and> min (max d 0) 100 \<le> 100)"
proof -
  define ws where "ws = split (clean_text k)"
  define total where
    "total = sum_list (map (\<lambda>w. case map_of word_frequencies w of Some f \<Rightarrow> f | None \<Rightarrow> 0) ws)"
  define d :: rat where
    "d = min (of_nat total / 10000) 50 + max 0 (30 - 5 * of_nat (length ws))
         + max 0 (20 - 2 * mean_token_length ws)"
  have loop: "total_frequency_loop word_frequencies ws 0 = total"
    by (simp add: total_frequency_loop_sum total_def)
  have "seo_estimate_keyword_difficulty k = Inr (min (max d 0) 100)"
    unfolding seo_estimate_unfold ws_def [symmetric] loop d_def
    by (simp add: mult.commute)
  moreover have "0 \<le> min (max d 0) 100" "min (max d 0) 100 \<le> 100"
    by simp_all
  ultimately show ?thesis
    by (simp add: Let_def ws_def total_def d_def)
qed

section \<open>Properties of the aggregator\<close>

lemma set_set_add: "set (set_add x s) = insert x (set s)"
  by (auto simp: set_add_def)

lemma distinct_set_add: "distinct s \<Longrightarrow> distinct (set_add x s)"
  by (simp add: set_add_def)

lemma set_set_update: "set (set_update xs s) = set xs \<union> set s"
  unfolding set_update_def by (induction xs arbitrary: s) (auto simp: set_set_add)

lemma distinct_set_update: "distinct s \<Longrightarrow> distinct (set_update xs s)"
  unfolding set_update_def by (induction xs arbitrary: s) (simp_all add: distinct_set_add)

lemma set_set_of_list: "set (set_of_list xs) = set xs"
  by (simp add: set_of_list_def set_set_update)

lemma distinct_set_of_list: "distinct (set_of_list xs)"
  by (simp add: set_of_list_def distinct_set_update)

lemma add_datamuse_mono: "set s \<subseteq> set (add_datamuse seed ws s)"
proof (induction ws arbitrary: s)
  case Nil
  then show ?case by simp
next
  case (Cons w ws)
  have "set s \<subseteq> set (set_add (seed @ '' '' @ w) (set_add (w @ '' '' @ seed) s))"
    by (auto simp: set_set_add)
  also have "\<dots> \<subseteq> set (add_datamuse seed ws (set_add (seed @ '' '' @ w) (set_add (w @ '' '' @ seed) s)))"
    by (rule Cons.IH)
  finally show ?case by simp
qed

lemma add_wiki_mono: "set s \<subseteq> set (add_wiki seed ts s)"
proof (induction ts arbitrary: s)
  case Nil
  then show ?case by simp
next
  case (Cons t ts)
  let ?s' = "if length (split t) \<le> 3
        then set_add (seed @ '' '' @ lower t) (set_add (lower t @ '' '' @ seed) s) else s"
  have "set s \<subseteq> set ?s'"
    by (auto simp: set_set_add)
  also have "\<dots> \<subseteq> set (add_wiki seed ts ?s')"
    by (rule Cons.IH)
  finally show ?case by simp
qed

lemma seed_in_all_keywords: "lower seed \<in> set (all_keywords_of seed gs gr dm wiki)"
proof -
  have "lower seed \<in> set (set_update gr (set_update gs (set_add (lower seed) [])))"
    by (simp add: set_set_update set_set_add)
  then have "lower seed \<in> set (add_datamuse seed dm (set_update gr (set_update gs (set_add (lower seed) []))))"
    using add_datamuse_mono by blast
  then show ?thesis
    unfolding all_keywords_of_def using add_wiki_mono by blast
qed

lemma filter_keywords_eq:
  "filter_keywords ks acc = acc @ map (\<lambda>k. lower (strip k)) (filter keep_keyword ks)"
  by (induction ks arbitrary: acc) simp_all

lemma iteration_order_set: "iteration_order enum \<Longrightarrow> set (enum xs) = set xs"
  by (metis iteration_order_def mset_eq_setD)

lemma iteration_order_length: "iteration_order enum \<Longrightarrow> length (enum xs) = length xs"
  by (metis iteration_order_def mset_eq_length)

lemma iteration_order_distinct: "iteration_order enum \<Longrightarrow> distinct (enum xs) = distinct xs"
  by (metis iteration_order_def mset_eq_imp_distinct_iff)

lemma iteration_order_single: "iteration_order enum \<Longrightarrow> enum [x] = [x]"
proof -
  assume "iteration_order enum"
  then have "mset (enum [x]) = mset [x]" by (simp only: iteration_order_def)
  then have "mset (enum [x]) = {#x#}" by simp
  then show "enum [x] = [x]" by (simp only: mset_single_iff)
qed

lemma iteration_order_id: "iteration_order (\<lambda>xs. xs)"
  by (simp add: iteration_order_def)

lemma iteration_order_rev: "iteration_order rev"
  by (simp add: iteration_order_def)

lemma normalized_member:
  assumes "keep_keyword k"
  shows "strip (lower (strip k)) = lower (strip k)"
    and "lower (lower (strip k)) = lower (strip k)"
    and "length (split (lower (strip k))) \<le> 6"
proof -
  show "strip (lower (strip k)) = lower (strip k)"
    by (simp add: strip_lower strip_idem)
  show "lower (lower (strip k)) = lower (strip k)"
    by (rule lower_lower)
  show "length (split (lower (strip k))) \<le> 6"
    using assms by (simp add: length_split_lower split_strip keep_keyword_def)
qed

lemma pool_subset:
  assumes "iteration_order enum"
  shows "set (generate_real_keywords enum seed gs gr dm wiki)
     \<subseteq> (\<lambda>k. lower (strip k)) ` {k \<in> set (all_keywords_of seed gs gr dm wiki). keep_keyword k}"
proof -
  let ?A = "all_keywords_of seed gs gr dm wiki"
  let ?F = "filter_keywords (enum ?A) []"
  have "set (generate_real_keywords enum seed gs gr dm wiki) \<subseteq> set (enum (set_of_list ?F))"
    by (simp add: generate_real_keywords_def Let_def set_take_subset)
  also have "\<dots> = set ?F"
    using assms by (simp add: iteration_order_set set_set_of_list)
  also have "\<dots> = (\<lambda>k. lower (strip k)) ` {k \<in> set ?A. keep_keyword k}"
    using assms by (auto simp: filter_keywords_eq iteration_order_set)
  finally show ?thesis .
qed

lemma pool_length: "length (generate_real_keywords enum seed gs gr dm wiki) \<le> 50"
  by (simp add: generate_real_keywords_def Let_def)

lemma pool_distinct:
  "iteration_order enum \<Longrightarrow> distinct (generate_real_keywords enum seed gs gr dm wiki)"
  by (simp add: generate_real_keywords_def Let_def iteration_order_distinct distinct_set_of_list)

lemma pool_seed_or_full:
  assumes "iteration_order enum" "keep_keyword (lower seed)"
  shows "strip (lower seed) \<in> set (generate_real_keywords enum seed gs gr dm wiki)
     \<or> length (generate_real_keywords enum seed gs gr dm wiki) = 50"
proof -
  let ?A = "all_keywords_of seed gs gr dm wiki"
  let ?F = "filter_keywords (enum ?A) []"
  let ?U = "enum (set_of_list ?F)"
  have pool: "generate_real_keywords enum seed gs gr dm wiki = take 50 ?U"
    by (simp add: generate_real_keywords_def Let_def)
  have "lower seed \<in> set (enum ?A)"
    using assms(1) by (simp add: iteration_order_set seed_in_all_keywords)
  then have "lower (strip (lower seed)) \<in> set ?F"
    using assms(2) by (auto simp: filter_keywords_eq)
  then have "strip (lower seed) \<in> set ?F"
    by (simp add: strip_lower [symmetric] lower_lower)
  then have mem: "strip (lower seed) \<in> set ?U"
    using assms(1) by (simp add: iteration_order_set set_set_of_list)
  show ?thesis
  proof (cases "length ?U \<le> 50")
    case True
    then have "take 50 ?U = ?U" by simp
    then show ?thesis using mem pool by simp
  next
    case False
    then have "length (take 50 ?U) = 50" by simp
    then show ?thesis using pool by simp
  qed
qed

lemma pool_no_sources:
  assumes "iteration_order enum" "keep_keyword (lower seed)"
  shows "generate_real_keywords enum seed [] [] [] [] = [strip (lower seed)]"
proof -
  have A: "all_keywords_of seed [] [] [] [] = [lower seed]"
    by (simp add: all_keywords_of_def set_update_def set_add_def)
  have k: "keep_keyword (lower seed)"
    by (rule assms(2))
  have n: "lower (strip (lower seed)) = strip (lower seed)"
    by (simp add: strip_lower [symmetric] lower_lower)
  have E: "enum [lower seed] = [lower seed]"
    using assms(1) by (rule iteration_order_single)
  have F: "filter_keywords [lower seed] [] = [strip (lower seed)]"
    using k n by simp
  have S: "set_of_list [strip (lower seed)] = [strip (lower seed)]"
    by (simp add: set_of_list_def set_update_def set_add_def)
  have E': "enum [strip (lower seed)] = [strip (lower seed)]"
    using assms(1) by (rule iteration_order_single)
  have "generate_real_keywords enum seed [] [] [] []
      = take 50 (enum (set_of_list (filter_keywords (enum [lower seed]) [])))"
    by (simp only: generate_real_keywords_def Let_def A)
  also have "\<dots> = take 50 [strip (lower seed)]"
    by (simp only: E F S E')
  finally show ?thesis by simp
qed

section \<open>Claims about the aggregator\<close>

text \<open>
  C1 (as amended). For every seed phrase whose lower-cased form, the string the code puts
  into the set and measures in the filter, has 3 to 100 characters and at most 6 tokens,
  and for every iteration order of the sets: when every source contributes the empty
  sequence the pool is exactly the trimmed, lower-cased seed; with arbitrary source
  contributions the pool contains the trimmed, lower-cased seed unless the cap of 50
  members is reached.
\<close>

theorem pool_contains_seed:
  assumes "iteration_order enum"
    and "3 \<le> length (lower seed)" and "length (lower seed) \<le> 100"
    and "length (split (lower seed)) \<le> 6"
  shows "generate_real_keywords enum seed [] [] [] [] = [strip (lower seed)]
     \<and> (strip (lower seed) \<in> set (generate_real_keywords enum seed gs gr dm wiki)
          \<or> length (generate_real_keywords enum seed gs gr dm wiki) = 50)"
proof -
  have k: "keep_keyword (lower seed)"
    using assms(2-4) by (simp add: keep_keyword_def)
  show ?thesis
    using pool_no_sources [OF assms(1) k] pool_seed_or_full [OF assms(1) k] by simp
qed

text \<open>
  Witness for C1 (as amended): the seed " Content Marketing", with the sets iterated in
  reverse order of insertion.
\<close>

theorem pool_contains_seed_witness:
  "iteration_order rev
   \<and> 3 \<le> length (lower '' Content Marketing'')
   \<and> length (lower '' Content Marketing'') \<le> 100
   \<and> length (split (lower '' Content Marketing'')) \<le> 6
   \<and> generate_real_keywords rev '' Content Marketing'' [] [] [] [] = [''content marketing'']
   \<and> ''content marketing''
        \<in> set (generate_real_keywords rev '' Content Marketing''
                  [''content marketing tips''] [] [''strategy''] [])"
proof -
  have h1: "iteration_order rev" by (rule iteration_order_rev)
  have h2: "3 \<le> length (lower '' Content Marketing'')" by code_simp
  have h3: "length (lower '' Content Marketing'') \<le> 100" by code_simp
  have h4: "length (split (lower '' Content Marketing'')) \<le> 6" by code_simp
  have n: "strip (lower '' Content Marketing'') = ''content marketing''" by code_simp
  have l: "length (generate_real_keywords rev '' Content Marketing''
                  [''content marketing tips''] [] [''strategy''] []) \<noteq> 50" by code_simp
  from pool_contains_seed [OF h1 h2 h3 h4, of "[''content marketing tips'']" "[]" "[''strategy'']" "[]"]
  show ?thesis using h1 h2 h3 h4 n l by simp
qed

text \<open>
  C1 as stated fails: the non-empty seed "ab" has fewer than 3 characters, the filter
  drops it, and with all sources empty the pool is empty.
\<close>

theorem short_seed_dropped_counterexample:
  "generate_real_keywords (\<lambda>xs. xs) ''ab'' [] [] [] [] = []
   \<and> lower ''ab'' \<notin> set (generate_real_keywords (\<lambda>xs. xs) ''ab'' [] [] [] [])"
proof -
  have "generate_real_keywords (\<lambda>xs. xs) ''ab'' [] [] [] [] = []" by code_simp
  then show ?thesis by simp
qed

text \<open>
  C5 (as amended). For every iteration order of the sets, the pool has at most 50 members,
  without repetition; every member is trimmed and lower-cased, has at most 6 tokens, and
  is the trimmed, then lower-cased form of a candidate that has at most 6 tokens and
  whose own length, measured before trimming and lower-casing, is in [3,100]: the length
  bounds are bounds on the candidate, not on the member. The filter loop keeps a candidate
  if and only if its length is in [3,100] and it has at most 6 tokens: 100 characters or
  6 tokens pass, 101 characters or 7 tokens do not.
\<close>

theorem pool_members_bounded:
  assumes "iteration_order enum"
  shows "length (generate_real_keywords enum seed gs gr dm wiki) \<le> 50
     \<and> distinct (generate_real_keywords enum seed gs gr dm wiki)
     \<and> (\<forall>m \<in> set (generate_real_keywords enum seed gs gr dm wiki).
           strip m = m \<and> lower m = m \<and> length (split m) \<le> 6
           \<and> (\<exists>k \<in> set (all_keywords_of seed gs gr dm wiki).
                 m = lower (strip k) \<and> 3 \<le> length k \<and> length k \<le> 100
                 \<and> length (split k) \<le> 6))
     \<and> filter_keywords ks [] =
         map (\<lambda>k. lower (strip k))
           (filter (\<lambda>k. 3 \<le> length k \<and> length k \<le> 100 \<and> length (split k) \<le> 6) ks)
     \<and> keep_keyword (replicate 100 (CHR ''a'')) \<and> \<not> keep_keyword (replicate 101 (CHR ''a''))
     \<and> keep_keyword ''a b c d e f'' \<and> \<not> keep_keyword ''a b c d e f g''"
proof -
  let ?pool = "generate_real_keywords enum seed gs gr dm wiki"
  have members: "\<forall>m \<in> set ?pool.
           strip m = m \<and> lower m = m \<and> length (split m) \<le> 6
           \<and> (\<exists>k \<in> set (all_keywords_of seed gs gr dm wiki).
                 m = lower (strip k) \<and> 3 \<le> length k \<and> length k \<le> 100
                 \<and> length (split k) \<le> 6)"
  proof
    fix m assume "m \<in> set ?pool"
    then obtain k where k: "k \<in> set (all_keywords_of seed gs gr dm wiki)" "keep_keyword k"
        "m = lower (strip k)"
      using pool_subset [OF assms, of seed gs gr dm wiki] by auto
    have "strip m = m" "lower m = m" "length (split m) \<le> 6"
      unfolding k(3) by (rule normalized_member [OF k(2)])+
    moreover have "3 \<le> length k \<and> length k \<le> 100 \<and> length (split k) \<le> 6"
      using k(2) by (simp add: keep_keyword_def)
    ultimately show "strip m = m \<and> lower m = m \<and> length (split m) \<le> 6
           \<and> (\<exists>k \<in> set (all_keywords_of seed gs gr dm wiki).
                 m = lower (strip k) \<and> 3 \<le> length k \<and> length k \<le> 100
                 \<and> length (split k) \<le> 6)"
      using k(1,3) by blast
  qed
  have flt: "filter_keywords ks [] =
         map (\<lambda>k. lower (strip k))
           (filter (\<lambda>k. 3 \<le> length k \<and> length k \<le> 100 \<and> length (split k) \<le> 6) ks)"
    by (simp add: filter_keywords_eq keep_keyword_def [abs_def])
  have b1: "keep_keyword (replicate 100 (CHR ''a''))" by code_simp
  have b2: "\<not> keep_keyword (replicate 101 (CHR ''a''))" by code_simp
  have b3: "keep_keyword ''a b c d e f''" by code_simp
  have b4: "\<not> keep_keyword ''a b c d e f g''" by code_simp
  show ?thesis
    using pool_length [of enum seed gs gr dm wiki] pool_distinct [OF assms, of seed gs gr dm wiki]
      members flt b1 b2 b3 b4 by blast
qed

text \<open>
  Witness for C5 (as amended): the member "strategy content marketing" of the pool built
  for the seed "Content Marketing", which comes from the candidate
  "Strategy Content Marketing" of 26 characters and 3 tokens.
\<close>

theorem pool_members_bounded_witness:
  "iteration_order rev
   \<and> ''strategy content marketing''
       \<in> set (generate_real_keywords rev ''Content Marketing''
                 [''content marketing tips''] [] [''Strategy''] [])
   \<and> strip ''strategy content marketing'' = ''strategy content marketing''
   \<and> lower ''strategy content marketing'' = ''strategy content marketing''
   \<and> length (split ''strategy content marketing'') \<le> 6
   \<and> ''Strategy Content Marketing''
       \<in> set (all_keywords_of ''Content Marketing'' [''content marketing tips''] []
                 [''Strategy''] [])
   \<and> ''strategy content marketing'' = lower (strip ''Strategy Content Marketing'')
   \<and> 3 \<le> length ''Strategy Content Marketing''
   \<and> length ''Strategy Content Marketing'' \<le> 100
   \<and> length (generate_real_keywords rev ''Content Marketing''
                 [''content marketing tips''] [] [''Strategy''] []) \<le> 50"
proof -
  have h: "iteration_order rev" by (rule iteration_order_rev)
  have m: "''strategy content marketing''
       \<in> set (generate_real_keywords rev ''Content Marketing''
                 [''content marketing tips''] [] [''Strategy''] [])"
    by code_simp
  have c: "''Strategy Content Marketing''
       \<in> set (all_keywords_of ''Content Marketing'' [''content marketing tips''] []
                 [''Strategy''] [])"
    by code_simp
  have n: "''strategy content marketing'' = lower (strip ''Strategy Content Marketing'')"
    by code_simp
  have l: "3 \<le> length ''Strategy Content Marketing''"
      "length ''Strategy Content Marketing'' \<le> 100"
    by simp_all
  from pool_members_bounded [OF h, of "''Content Marketing''" "[''content marketing tips'']" "[]"
      "[''Strategy'']" "[]" "[]"] m h
  have "strip ''strategy content marketing'' = ''strategy content marketing''
      \<and> lower ''strategy content marketing'' = ''strategy content marketing''
      \<and> length (split ''strategy content marketing'') \<le> 6
      \<and> length (generate_real_keywords rev ''Content Marketing''
                 [''content marketing tips''] [] [''Strategy''] []) \<le> 50"
    by blast
  then show ?thesis using h m c n l by simp
qed

text \<open>
  C5 as stated fails on the length of a member: the filter measures the candidate before
  it is trimmed and lower-cased, so the seed "a" followed by two blanks (3 characters)
  passes and enters the pool as "a", of length 1.
\<close>

theorem stripped_member_too_short_counterexample:
  "generate_real_keywords (\<lambda>xs. xs) ''a  '' [] [] [] [] = [''a'']
   \<and> ''a'' \<in> set (generate_real_keywords (\<lambda>xs. xs) ''a  '' [] [] [] [])
   \<and> length ''a'' < 3"
proof -
  have "generate_real_keywords (\<lambda>xs. xs) ''a  '' [] [] [] [] = [''a'']" by code_simp
  then show ?thesis by simp
qed

section \<open>Claims about the categorizer and the content planner\<close>

lemma categorize_loop_filter:
  "categorize_loop ks short_tail long_tail =
     (short_tail @ filter (\<lambda>k. length (split k) \<le> 2) ks,
      long_tail @ filter (\<lambda>k. \<not> length (split k) \<le> 2) ks)"
  by (induction ks arbitrary: short_tail long_tail) (simp_all add: Let_def)

text \<open>
  C4. For every list of keywords, \<open>categorize_keywords\<close> returns two buckets: the
  short-tail bucket holds, in order, exactly the entries with at most 2 tokens, the
  long-tail bucket exactly the entries with more than 2. Every entry of the input goes to
  one bucket and only one: the lengths add up, the multiset union of the buckets is the
  pool, and no keyword is in both.
\<close>

theorem categorize_partition:
  "fst (categorize_keywords ks) = filter (\<lambda>k. length (split k) \<le> 2) ks
   \<and> snd (categorize_keywords ks) = filter (\<lambda>k. 2 < length (split k)) ks
   \<and> mset (fst (categorize_keywords ks)) + mset (snd (categorize_keywords ks)) = mset ks
   \<and> length (fst (categorize_keywords ks)) + length (snd (categorize_keywords ks)) = length ks
   \<and> set (fst (categorize_keywords ks)) \<inter> set (snd (categorize_keywords ks)) = {}
   \<and> (k \<in> set (fst (categorize_keywords ks))) = (k \<in> set ks \<and> length (split k) \<le> 2)
   \<and> (k \<in> set (snd (categorize_keywords ks))) = (k \<in> set ks \<and> 2 < length (split k))"
proof -
  have f: "fst (categorize_keywords ks) = filter (\<lambda>k. length (split k) \<le> 2) ks"
    by (simp add: categorize_keywords_def categorize_loop_filter)
  have s: "snd (categorize_keywords ks) = filter (\<lambda>k. 2 < length (split k)) ks"
    by (simp add: categorize_keywords_def categorize_loop_filter not_le)
  have m: "mset (filter (\<lambda>k. length (split k) \<le> 2) ks) + mset (filter (\<lambda>k. 2 < length (split k)) ks)
      = mset ks"
    by (induction ks) auto
  have l: "length (filter (\<lambda>k. length (split k) \<le> 2) ks) + length (filter (\<lambda>k. 2 < length (split k)) ks)
      = length ks"
    by (induction ks) auto
  show ?thesis
    unfolding f s using m l by auto
qed

text \<open>
  C9. The content structure depends on the seed phrase only: any two lists of related
  keywords give the same titles (5), headings (8), meta description, target length (2000)
  and density (1.5).
\<close>

theorem content_structure_depends_only_on_seed:
  "suggest_content_structure seed kws1 = suggest_content_structure seed kws2
   \<and> length (titles (suggest_content_structure seed kws1)) = 5
   \<and> length (headings (suggest_content_structure seed kws1)) = 8
   \<and> target_length (suggest_content_structure seed kws1) = 2000
   \<and> keyword_density (suggest_content_structure seed kws1) = 3 / 2"
  by (simp add: suggest_content_structure_def)





end
